theory Spec2Isabelle
  imports Main "HOL-Library.Sublist"
begin

section \<open>The version resolver of setup.py\<close>

text \<open>
  The only function of \<^verbatim>\<open>setup.py\<close> is \<^verbatim>\<open>get_version\<close>: it opens the script
  \<^verbatim>\<open>thermod-monitor-dbstats\<close> in text mode, takes the first line on which
  \<^verbatim>\<open>line.find('__version__') == 0\<close>, puts an encoding comment in front of it, hands
  the two lines to \<^verbatim>\<open>exec\<close> with a fresh dictionary, and returns what the dictionary
  holds under \<^verbatim>\<open>'__version__'\<close>.

  The embedding follows Python 3. A \<open>char\<close> stands for one character of the decoded
  text of the file.
\<close>

subsection \<open>Values, errors, the world\<close>

datatype py_error = OSError | TypeError | SyntaxError | KeyError

text \<open>
  The values that occur. A float is written as the pair of its significand and its binary
  exponent: \<open>PyFloat m e\<close> is the double \<open>m * 2 ^ e\<close>, with \<open>2 ^ 52 \<le> m < 2 ^ 53\<close>,
  and \<open>PyFloat 0 0\<close> is \<open>0.0\<close>.
\<close>

datatype py_value =
    PyStr string
  | PyInt int
  | PyFloat int int
  | PyBool bool
  | PyNone
  | PyTuple "py_value list"
  | PyBuiltins

type_synonym namespace = "string \<rightharpoonup> py_value"

text \<open>
  What lies outside the function: the files that can be opened for reading, by name
  (a name that is absent cannot be opened), and the text written to the standard output
  so far.
\<close>

record world =
  files :: "string \<rightharpoonup> string"
  stdout :: string

text \<open>
  A call either returns a value, or raises, both in a world; or it runs Python that this
  development does not model, and then nothing is said about value or world.
\<close>

datatype 'a outcome = Returns 'a world | Raises py_error world | Unmodelled

abbreviation LF :: char where "LF \<equiv> CHR 0x0A"
abbreviation CR :: char where "CR \<equiv> CHR 0x0D"
abbreviation NUL :: char where "NUL \<equiv> CHR 0x00"
abbreviation TAB :: char where "TAB \<equiv> CHR 0x09"
abbreviation BACKSLASH :: char where "BACKSLASH \<equiv> CHR 0x5C"
abbreviation DQUOTE :: char where "DQUOTE \<equiv> CHR 0x22"
abbreviation SQUOTE :: char where "SQUOTE \<equiv> CHR 0x27"

subsection \<open>Reading a text file line by line\<close>

text \<open>
  \<^verbatim>\<open>open(name, 'rt')\<close> reads with universal newlines: \<^verbatim>\<open>\r\n\<close> and a lone
  \<^verbatim>\<open>\r\<close> both arrive as \<^verbatim>\<open>\n\<close>.
\<close>

fun universal_newlines :: "string \<Rightarrow> string" where
  "universal_newlines [] = []"
| "universal_newlines [c] = [if c = CR then LF else c]"
| "universal_newlines (c # d # cs) =
     (if c = CR \<and> d = LF then LF # universal_newlines cs
      else if c = CR then LF # universal_newlines (d # cs)
      else c # universal_newlines (d # cs))"

text \<open>
  Iterating over the file yields its lines, each with its closing \<^verbatim>\<open>\n\<close>; the last
  line has none when the text does not end in one. The first argument is the line read
  so far.
\<close>

fun readlines :: "string \<Rightarrow> string \<Rightarrow> string list" where
  "readlines cur [] = (if cur = [] then [] else [cur])"
| "readlines cur (c # cs) =
     (if c = LF then (cur @ [c]) # readlines [] cs else readlines (cur @ [c]) cs)"

definition open_rt :: "world \<Rightarrow> string \<Rightarrow> string list option" where
  "open_rt w name = map_option (\<lambda>text. readlines [] (universal_newlines text)) (files w name)"

subsection \<open>The scan for the marker line\<close>

text \<open>\<^verbatim>\<open>s.find(sub)\<close>: the lowest index at which \<open>sub\<close> occurs in \<open>s\<close>, or \<open>-1\<close>.\<close>

fun find_from :: "nat \<Rightarrow> string \<Rightarrow> string \<Rightarrow> int" where
  "find_from i [] sub = (if sub = [] then int i else - 1)"
| "find_from i (c # cs) sub =
     (if prefix sub (c # cs) then int i else find_from (Suc i) cs sub)"

definition py_find :: "string \<Rightarrow> string \<Rightarrow> int" where
  "py_find s sub = find_from 0 s sub"

definition script_name :: string where
  "script_name = ''thermod-monitor-dbstats''"

definition marker :: string where
  "marker = ''__version__''"

definition coding_line :: string where
  "coding_line = ''# -*- coding: utf-8 -*-'' @ [LF]"

text \<open>
  The \<^verbatim>\<open>for\<close> loop with its \<^verbatim>\<open>break\<close>: the result is \<^verbatim>\<open>version_str\<close>, which stays
  \<^verbatim>\<open>None\<close> when no line matches.
\<close>

fun scan_script :: "string list \<Rightarrow> string option" where
  "scan_script [] = None"
| "scan_script (line # rest) =
     (if py_find line marker = 0 then Some (coding_line @ line) else scan_script rest)"

subsection \<open>A fragment of Python for exec\<close>

text \<open>
  \<^verbatim>\<open>exec\<close> runs any Python. Modelled here are sources whose lines are blank, comments,
  or one assignment \<^verbatim>\<open>name = expression\<close> at column zero, optionally followed by a
  comment, where the expression is
  \<^item> a string literal in single or double quotes without prefix and without backslash,
  \<^item> a decimal integer literal without underscores, of at most 4300 digits,
  \<^item> a float literal \<^verbatim>\<open>digits.digits\<close> whose value is zero or in the range of the normal
    doubles,
  \<^item> \<^verbatim>\<open>None\<close>, \<^verbatim>\<open>True\<close> or \<^verbatim>\<open>False\<close>,
  \<^item> such literals in parentheses, separated by commas: a tuple, or the literal itself
    when there is one and no comma,
  \<^item> a call \<^verbatim>\<open>print("...")\<close> of the builtin on one such string literal.

  Every other source is answered \<open>Unmodelled\<close>, also where Python would reject it:
  so are a source with a carriage return or a NUL in it, and a call with globals that
  bind \<^verbatim>\<open>__builtins__\<close> or \<^verbatim>\<open>print\<close> already.
\<close>

datatype expr = Literal py_value | PrintCall string

datatype stmt = Assign string expr

datatype 'a parse = Parsed 'a string | Malformed | Unsupported

datatype logical_line = Blank | Simple stmt | Bad | Beyond

definition is_space :: "char \<Rightarrow> bool" where
  "is_space c = (c = CHR '' '' \<or> c = TAB)"

definition is_digit :: "char \<Rightarrow> bool" where
  "is_digit c = (c \<in> set ''0123456789'')"

definition is_ident_char :: "char \<Rightarrow> bool" where
  "is_ident_char c =
     (c \<in> set ''abcdefghijklmnopqrstuvwxyzABCDEFGHIJKLMNOPQRSTUVWXYZ0123456789_'')"

text \<open>Names that cannot be assigned, or whose assignment would change what a later
  line means.\<close>

definition reserved :: "string list" where
  "reserved =
     [''False'', ''None'', ''True'', ''and'', ''as'', ''assert'', ''async'', ''await'',
      ''break'', ''class'', ''continue'', ''def'', ''del'', ''elif'', ''else'', ''except'',
      ''finally'', ''for'', ''from'', ''global'', ''if'', ''import'', ''in'', ''is'',
      ''lambda'', ''nonlocal'', ''not'', ''or'', ''pass'', ''raise'', ''return'', ''try'',
      ''while'', ''with'', ''yield'', ''__debug__'', ''__builtins__'', ''print'']"

definition digit_value :: "char \<Rightarrow> int" where
  "digit_value c = of_char c - 48"

definition int_of_digits :: "string \<Rightarrow> int" where
  "int_of_digits ds = foldl (\<lambda>n c. 10 * n + digit_value c) 0 ds"

text \<open>
  A string literal: the text up to the next quote of the same kind. A quote that never
  closes is a syntax error; a backslash starts an escape sequence, which is not modelled.
\<close>

definition parse_string :: "string \<Rightarrow> string parse" where
  "parse_string s =
     (case s of
        [] \<Rightarrow> Unsupported
      | q # body \<Rightarrow>
          if q \<noteq> DQUOTE \<and> q \<noteq> SQUOTE then Unsupported
          else let v = takeWhile (\<lambda>c. c \<noteq> q) body;
                   after = dropWhile (\<lambda>c. c \<noteq> q) body
               in if BACKSLASH \<in> set v then Unsupported
                  else if after = [] then Malformed
                  else Parsed v (tl after))"

text \<open>
  A float literal denotes the double nearest to its decimal value, ties to the even
  significand. \<open>double_of_ratio p q\<close> is that double for the value \<open>p / q\<close>; values
  that would be subnormal, or too large for a double, are not modelled.
\<close>

fun bit_length :: "nat \<Rightarrow> nat" where
  "bit_length n = (if n = 0 then 0 else Suc (bit_length (n div 2)))"

declare bit_length.simps [simp del]

definition round_half_even :: "nat \<Rightarrow> nat \<Rightarrow> nat" where
  "round_half_even num den =
     (let m = num div den; r = num mod den
      in if den < 2 * r \<or> (2 * r = den \<and> odd m) then m + 1 else m)"

definition scaled :: "nat \<Rightarrow> nat \<Rightarrow> int \<Rightarrow> nat \<times> nat" where
  "scaled p q e = (if 0 \<le> e then (p, q * 2 ^ nat e) else (p * 2 ^ nat (- e), q))"

definition double_of_ratio :: "nat \<Rightarrow> nat \<Rightarrow> (int \<times> int) option" where
  "double_of_ratio p q =
     (if p = 0 then Some (0, 0)
      else let e0 = int (bit_length p) - int (bit_length q) - 53;
               e1 = (case scaled p q e0 of (n, d) \<Rightarrow> if n div d < 2 ^ 53 then e0 else e0 + 1);
               m = (case scaled p q e1 of (n, d) \<Rightarrow> round_half_even n d);
               m' = (if m = 2 ^ 53 then 2 ^ 52 else m);
               e' = (if m = 2 ^ 53 then e1 + 1 else e1)
           in if - 1074 \<le> e' \<and> e' \<le> 971 then Some (int m', e') else None)"

text \<open>A number that starts with a digit: an integer, or a float when a point follows.\<close>

definition parse_number :: "string \<Rightarrow> py_value parse" where
  "parse_number s =
     (let ds = takeWhile is_digit s; rest = dropWhile is_digit s
      in if rest \<noteq> [] \<and> hd rest = CHR ''.'' then
           (let fs = takeWhile is_digit (tl rest)
            in if fs = [] then Unsupported
               else (case double_of_ratio (nat (int_of_digits (ds @ fs))) (10 ^ length fs) of
                       None \<Rightarrow> Unsupported
                     | Some (m, e) \<Rightarrow> Parsed (PyFloat m e) (dropWhile is_digit (tl rest))))
         else if (hd ds = CHR ''0'' \<and> 1 < length ds) \<or> 4300 < length ds then Unsupported
         else Parsed (PyInt (int_of_digits ds)) rest)"

definition parse_atom :: "string \<Rightarrow> py_value parse" where
  "parse_atom s =
     (case s of
        [] \<Rightarrow> Unsupported
      | c # _ \<Rightarrow>
          if c = DQUOTE \<or> c = SQUOTE then
            (case parse_string s of
               Parsed v rest \<Rightarrow> Parsed (PyStr v) rest
             | Malformed \<Rightarrow> Malformed
             | Unsupported \<Rightarrow> Unsupported)
          else if is_digit c then parse_number s
          else
            (let name = takeWhile is_ident_char s; rest = dropWhile is_ident_char s
             in if name = ''None'' then Parsed PyNone rest
                else if name = ''True'' then Parsed (PyBool True) rest
                else if name = ''False'' then Parsed (PyBool False) rest
                else Unsupported))"

text \<open>
  What stands between parentheses, up to the closing one: literals separated by commas,
  the last comma optional. The flag tells whether there was a comma. The first argument
  bounds the number of literals; the length of the text is enough.
\<close>

fun parse_items :: "nat \<Rightarrow> string \<Rightarrow> (py_value list \<times> bool) parse" where
  "parse_items 0 s = Unsupported"
| "parse_items (Suc k) s =
     (case parse_atom (dropWhile is_space s) of
        Parsed v r \<Rightarrow>
          (case dropWhile is_space r of
             [] \<Rightarrow> Unsupported
           | c # r1 \<Rightarrow>
               if c = CHR '')'' then Parsed ([v], False) r1
               else if c \<noteq> CHR '','' then Unsupported
               else (case dropWhile is_space r1 of
                       [] \<Rightarrow> Unsupported
                     | d # r2 \<Rightarrow>
                         if d = CHR '')'' then Parsed ([v], True) r2
                         else (case parse_items k r1 of
                                 Parsed (vs, _) r3 \<Rightarrow> Parsed (v # vs, True) r3
                               | Malformed \<Rightarrow> Malformed
                               | Unsupported \<Rightarrow> Unsupported)))
      | Malformed \<Rightarrow> Malformed
      | Unsupported \<Rightarrow> Unsupported)"

definition parse_paren :: "string \<Rightarrow> py_value parse" where
  "parse_paren s =
     (case dropWhile is_space s of
        [] \<Rightarrow> Unsupported
      | c # r \<Rightarrow>
          if c = CHR '')'' then Parsed (PyTuple []) r
          else (case parse_items (length s) s of
                  Parsed (vs, comma) r' \<Rightarrow>
                    Parsed (if comma then PyTuple vs else hd vs) r'
                | Malformed \<Rightarrow> Malformed
                | Unsupported \<Rightarrow> Unsupported))"

definition parse_print :: "string \<Rightarrow> expr parse" where
  "parse_print s =
     (case s of
        [] \<Rightarrow> Unsupported
      | p # args \<Rightarrow>
          if p \<noteq> CHR ''('' then Unsupported
          else (case parse_string (dropWhile is_space args) of
                  Parsed v r \<Rightarrow>
                    (case dropWhile is_space r of
                       [] \<Rightarrow> Unsupported
                     | e # r' \<Rightarrow> if e = CHR '')'' then Parsed (PrintCall v) r' else Unsupported)
                | Malformed \<Rightarrow> Malformed
                | Unsupported \<Rightarrow> Unsupported))"

definition parse_expr :: "string \<Rightarrow> expr parse" where
  "parse_expr s =
     (case s of
        [] \<Rightarrow> Unsupported
      | c # after \<Rightarrow>
          if c = CHR ''('' then map_parse Literal (parse_paren after)
          else if takeWhile is_ident_char s = ''print'' then
            parse_print (dropWhile is_ident_char s)
          else map_parse Literal (parse_atom s))"

definition end_of_line :: "string \<Rightarrow> bool" where
  "end_of_line s = (case dropWhile is_space s of [] \<Rightarrow> True | c # _ \<Rightarrow> c = CHR ''#'')"

definition parse_line :: "string \<Rightarrow> logical_line" where
  "parse_line l =
     (if end_of_line l then Blank
      else let name = takeWhile is_ident_char l
           in if name = [] \<or> is_digit (hd name) \<or> name \<in> set reserved then Beyond
              else (case dropWhile is_space (dropWhile is_ident_char l) of
                      [] \<Rightarrow> Beyond
                    | e # r \<Rightarrow>
                        if e \<noteq> CHR ''='' then Beyond
                        else (case parse_expr (dropWhile is_space r) of
                                Parsed x rest \<Rightarrow>
                                  if end_of_line rest then Simple (Assign name x) else Beyond
                              | Malformed \<Rightarrow> Bad
                              | Unsupported \<Rightarrow> Beyond)))"

text \<open>
  The whole source is compiled before anything runs: the first line that is not
  modelled, or that is a syntax error, decides.
\<close>

fun compile_lines :: "string list \<Rightarrow> (py_error + stmt list) option" where
  "compile_lines [] = Some (Inr [])"
| "compile_lines (l # ls) =
     (case parse_line l of
        Beyond \<Rightarrow> None
      | Bad \<Rightarrow> Some (Inl SyntaxError)
      | Blank \<Rightarrow> compile_lines ls
      | Simple s \<Rightarrow>
          (case compile_lines ls of
             Some (Inr ss) \<Rightarrow> Some (Inr (s # ss))
           | other \<Rightarrow> other))"

fun run :: "stmt list \<Rightarrow> namespace \<Rightarrow> world \<Rightarrow> namespace \<times> world" where
  "run [] ns w = (ns, w)"
| "run (Assign n (Literal v) # ss) ns w = run ss (ns(n \<mapsto> v)) w"
| "run (Assign n (PrintCall s) # ss) ns w =
     run ss (ns(n \<mapsto> PyNone)) (w\<lparr>stdout := stdout w @ s @ [LF]\<rparr>)"

definition chomp :: "string \<Rightarrow> string" where
  "chomp l = (if l \<noteq> [] \<and> last l = LF then butlast l else l)"

text \<open>
  \<^verbatim>\<open>exec(source, globals)\<close>. A source that is not a string (here: \<^verbatim>\<open>None\<close>) is a
  \<^verbatim>\<open>TypeError\<close>. The builtins are put into \<open>globals\<close> under \<^verbatim>\<open>'__builtins__'\<close>.
\<close>

definition py_exec :: "string option \<Rightarrow> namespace \<Rightarrow> world \<Rightarrow> namespace outcome" where
  "py_exec source globals w =
     (case source of
        None \<Rightarrow> Raises TypeError w
      | Some src \<Rightarrow>
          if CR \<in> set src \<or> NUL \<in> set src
             \<or> globals ''__builtins__'' \<noteq> None \<or> globals ''print'' \<noteq> None
          then Unmodelled
          else (case compile_lines (map chomp (readlines [] src)) of
                  None \<Rightarrow> Unmodelled
                | Some (Inl e) \<Rightarrow> Raises e w
                | Some (Inr prog) \<Rightarrow>
                    (case run prog (globals(''__builtins__'' \<mapsto> PyBuiltins)) w of
                       (ns, w') \<Rightarrow> Returns ns w')))"

subsection \<open>get_version\<close>

definition get_version :: "world \<Rightarrow> py_value outcome" where
  "get_version w =
     (let main_ns = Map.empty
      in case open_rt w script_name of
           None \<Rightarrow> Raises OSError w
         | Some script \<Rightarrow>
             (let version_str = scan_script script
              in case py_exec version_str main_ns w of
                   Returns ns w' \<Rightarrow>
                     (case ns marker of
                        None \<Rightarrow> Raises KeyError w'
                      | Some v \<Rightarrow> Returns v w')
                 | Raises e w' \<Rightarrow> Raises e w'
                 | Unmodelled \<Rightarrow> Unmodelled))"

subsection \<open>Auxiliary notions for the statements\<close>

text \<open>The script with the given text is the only file; nothing has been printed.\<close>

definition script_only :: "string \<Rightarrow> world" where
  "script_only text = \<lparr>files = [script_name \<mapsto> text], stdout = []\<rparr>"

text \<open>
  What the caller of a function sees of its outcome: the value or the exception;
  \<open>None\<close> where the call is not modelled.
\<close>

fun answer :: "'a outcome \<Rightarrow> (py_error + 'a) option" where
  "answer (Returns v w) = Some (Inr v)"
| "answer (Raises e w) = Some (Inl e)"
| "answer Unmodelled = None"

text \<open>The name and the value of a line without NUL that assigns a literal to a name.\<close>

definition literal_assigned :: "string \<Rightarrow> (string \<times> py_value) option" where
  "literal_assigned l =
     (if NUL \<in> set l then None
      else case parse_line (chomp l) of
             Simple (Assign n (Literal v)) \<Rightarrow> Some (n, v)
           | _ \<Rightarrow> None)"

text \<open>What the caller sees is a function of the first marker line alone.\<close>

definition answer_of_line :: "string \<Rightarrow> (py_error + py_value) option" where
  "answer_of_line l =
     (if NUL \<in> set l then None
      else case parse_line (chomp l) of
             Beyond \<Rightarrow> None
           | Bad \<Rightarrow> Some (Inl SyntaxError)
           | Blank \<Rightarrow> Some (Inl KeyError)
           | Simple s \<Rightarrow>
               (case s of Assign n e \<Rightarrow>
                  if n = marker
                  then Some (Inr (case e of Literal v \<Rightarrow> v | PrintCall t \<Rightarrow> PyNone))
                  else Some (Inl KeyError)))"

section \<open>Properties\<close>

subsection \<open>The scan\<close>

lemma find_from_range: "find_from i s sub = - 1 \<or> int i \<le> find_from i s sub"
proof (induction s arbitrary: i)
  case Nil
  then show ?case by simp
next
  case (Cons c cs)
  from Cons.IH [of "Suc i"] show ?case by auto
qed

lemma py_find_0_iff: "py_find s sub = 0 \<longleftrightarrow> prefix sub s"
proof (cases s)
  case Nil
  then show ?thesis by (simp add: py_find_def)
next
  case (Cons c cs)
  from find_from_range [of "Suc 0" cs sub] have "find_from (Suc 0) cs sub \<noteq> 0" by auto
  with Cons show ?thesis by (simp add: py_find_def)
qed

lemma scan_script_skip:
  "\<forall>x\<in>set pre. \<not> prefix marker x \<Longrightarrow> scan_script (pre @ ls) = scan_script ls"
  by (induction pre) (simp_all add: py_find_0_iff)

lemma scan_script_hit:
  "prefix marker l \<Longrightarrow> scan_script (l # rest) = Some (coding_line @ l)"
  by (simp add: py_find_0_iff)

lemma scan_script_filter:
  "scan_script ls = (case filter (prefix marker) ls of [] \<Rightarrow> None | l # _ \<Rightarrow> Some (coding_line @ l))"
  by (induction ls) (simp_all add: py_find_0_iff)

lemma scan_script_by_filter:
  "scan_script ls =
     (case filter (\<lambda>l. py_find l marker = 0) ls of
        [] \<Rightarrow> None
      | l # _ \<Rightarrow> Some (coding_line @ l))"
  by (induction ls) simp_all

lemma readlines_no_LF:
  "LF \<notin> set a \<Longrightarrow> readlines cur a = (if cur @ a = [] then [] else [cur @ a])"
  by (induction a arbitrary: cur) auto

lemma readlines_LF:
  "LF \<notin> set a \<Longrightarrow> readlines cur (a @ LF # r) = (cur @ a @ [LF]) # readlines [] r"
  by (induction a arbitrary: cur) auto

lemma readlines_shape:
  "l \<in> set (readlines cur s) \<Longrightarrow> LF \<notin> set cur \<Longrightarrow> l \<noteq> [] \<and> LF \<notin> set (butlast l)"
proof (induction s arbitrary: cur)
  case Nil
  then show ?case by (auto split: if_splits dest: in_set_butlastD)
next
  case (Cons c cs)
  show ?case
  proof (cases "c = LF")
    case True
    with Cons.prems have "l = cur @ [c] \<or> l \<in> set (readlines [] cs)" by simp
    then show ?thesis
    proof
      assume "l = cur @ [c]"
      with Cons.prems show ?thesis by simp
    next
      assume "l \<in> set (readlines [] cs)"
      from Cons.IH [OF this] show ?thesis by simp
    qed
  next
    case False
    with Cons.prems have "l \<in> set (readlines (cur @ [c]) cs)" and "LF \<notin> set (cur @ [c])"
      by simp_all
    from Cons.IH [OF this] show ?thesis .
  qed
qed

lemma readlines_chars:
  "l \<in> set (readlines cur s) \<Longrightarrow> set l \<subseteq> set cur \<union> set s"
proof (induction s arbitrary: cur)
  case Nil
  then show ?case by (auto split: if_splits)
next
  case (Cons c cs)
  show ?case
  proof (cases "c = LF")
    case True
    with Cons.prems have "l = cur @ [c] \<or> l \<in> set (readlines [] cs)" by simp
    then show ?thesis using Cons.IH [of "[]"] by auto
  next
    case False
    with Cons.prems have "l \<in> set (readlines (cur @ [c]) cs)" by simp
    from Cons.IH [OF this] show ?thesis by auto
  qed
qed

lemma universal_newlines_no_CR: "CR \<notin> set (universal_newlines t)"
  by (induction t rule: universal_newlines.induct) auto

lemma open_rt_line:
  assumes "open_rt w name = Some ls" and "l \<in> set ls"
  shows "l \<noteq> []" and "LF \<notin> set (butlast l)" and "CR \<notin> set l"
proof -
  from assms obtain t where l: "l \<in> set (readlines [] (universal_newlines t))"
    by (auto simp: open_rt_def)
  from readlines_shape [OF l] show "l \<noteq> []" and "LF \<notin> set (butlast l)" by simp_all
  from readlines_chars [OF l] universal_newlines_no_CR [of t] show "CR \<notin> set l" by auto
qed

subsection \<open>The snippet given to exec\<close>

lemma readlines_single:
  assumes "l \<noteq> []" and "LF \<notin> set (butlast l)"
  shows "readlines [] l = [l]"
proof (cases "last l = LF")
  case True
  with assms have "l = butlast l @ LF # []" by (metis append_butlast_last_id)
  then have "readlines [] l = readlines [] (butlast l @ LF # [])" by simp
  also have "\<dots> = ([] @ butlast l @ [LF]) # readlines [] []"
    using assms(2) by (rule readlines_LF)
  finally show ?thesis using \<open>l = butlast l @ LF # []\<close> by simp
next
  case False
  with assms have "LF \<notin> set l"
    by (metis append_butlast_last_id set_ConsD set_append Un_iff list.set(1) empty_iff)
  with assms(1) show ?thesis by (simp add: readlines_no_LF)
qed

lemma chomp_no_LF:
  assumes "l \<noteq> []" and "LF \<notin> set (butlast l)"
  shows "LF \<notin> set (chomp l)"
proof (cases "last l = LF")
  case True
  with assms show ?thesis by (simp add: chomp_def)
next
  case False
  with assms have "LF \<notin> set l"
    by (metis append_butlast_last_id set_ConsD set_append Un_iff list.set(1) empty_iff)
  with assms show ?thesis by (simp add: chomp_def)
qed

lemma set_chomp: "set (chomp l) \<subseteq> set l"
  by (auto simp: chomp_def dest: in_set_butlastD)

lemma chomp_cases: "l = chomp l \<or> l = chomp l @ [LF]"
  by (auto simp: chomp_def) (metis append_butlast_last_id)

lemma snippet_lines:
  assumes "l \<noteq> []" and "LF \<notin> set (butlast l)"
  shows "map chomp (readlines [] (coding_line @ l)) = [''# -*- coding: utf-8 -*-'', chomp l]"
proof -
  have "readlines [] (''# -*- coding: utf-8 -*-'' @ LF # l)
          = ([] @ ''# -*- coding: utf-8 -*-'' @ [LF]) # readlines [] l"
    by (rule readlines_LF) simp
  with readlines_single [OF assms] show ?thesis
    by (simp add: coding_line_def chomp_def)
qed

lemma parse_coding_line: "parse_line ''# -*- coding: utf-8 -*-'' = Blank"
  by (simp add: parse_line_def end_of_line_def is_space_def)


subsection \<open>Parsing an assignment\<close>

lemma parse_string_closed:
  assumes "q = DQUOTE \<or> q = SQUOTE" and "q \<notin> set v" and "BACKSLASH \<notin> set v"
  shows "parse_string (q # v @ q # r) = Parsed v r"
proof -
  from assms(2) have all: "\<forall>c\<in>set v. c \<noteq> q" by auto
  have "takeWhile (\<lambda>c. c \<noteq> q) (v @ q # r) = v"
    using all by (simp add: takeWhile_tail)
  moreover have "dropWhile (\<lambda>c. c \<noteq> q) (v @ q # r) = q # r"
    using all by (simp add: dropWhile_append3)
  ultimately show ?thesis using assms(1,3) by (auto simp: parse_string_def)
qed

lemma quote_not_ident: "c = DQUOTE \<or> c = SQUOTE \<Longrightarrow> \<not> is_ident_char c \<and> c \<noteq> CHR ''(''"
  unfolding is_ident_char_def by auto

lemma parse_expr_string:
  assumes "q = DQUOTE \<or> q = SQUOTE" and "q \<notin> set v" and "BACKSLASH \<notin> set v"
  shows "parse_expr (q # v @ q # r) = Parsed (Literal (PyStr v)) r"
proof -
  have atom: "parse_atom (q # v @ q # r) = Parsed (PyStr v) r"
    using parse_string_closed [OF assms, of r] assms(1) by (auto simp: parse_atom_def)
  from quote_not_ident [OF assms(1)]
  have "takeWhile is_ident_char (q # v @ q # r) = []" and "q \<noteq> CHR ''(''" by simp_all
  with atom show ?thesis by (simp add: parse_expr_def)
qed

lemma parse_expr_start:
  assumes "parse_expr s = Parsed x r"
  shows "s \<noteq> [] \<and> \<not> is_space (hd s)"
proof (cases s)
  case Nil
  with assms show ?thesis by (simp add: parse_expr_def)
next
  case (Cons c cs)
  show ?thesis
  proof (rule ccontr)
    assume "\<not> ?thesis"
    with Cons have "is_space c" by simp
    then have "c = CHR '' '' \<or> c = TAB" by (simp add: is_space_def)
    then have c: "c \<noteq> DQUOTE" "c \<noteq> SQUOTE" "c \<noteq> CHR ''(''" "\<not> is_digit c" "\<not> is_ident_char c"
      unfolding is_digit_def is_ident_char_def by auto
    then have "parse_atom (c # cs) = Unsupported" by (simp add: parse_atom_def)
    with c Cons assms show False by (simp add: parse_expr_def)
  qed
qed

lemma end_of_line_spaces:
  assumes "\<forall>c\<in>set sp. is_space c"
  shows "end_of_line sp"
proof -
  from assms have none_left: "dropWhile is_space sp = []" by simp
  show ?thesis unfolding end_of_line_def none_left by simp
qed

lemma ident_char_not_space:
  "is_ident_char c \<Longrightarrow> \<not> is_space c \<and> c \<noteq> CHR ''#'' \<and> c \<noteq> CHR ''=''"
  unfolding is_ident_char_def is_space_def by auto

lemma equals_not_ident: "\<not> is_ident_char (CHR ''='')"
  by (simp add: is_ident_char_def)

lemma head_of_tail_not_ident:
  assumes "\<forall>c\<in>set sp. is_space c"
  shows "\<not> is_ident_char (hd (sp @ CHR ''='' # t))"
proof (cases sp)
  case Nil
  then show ?thesis by (simp add: equals_not_ident)
next
  case (Cons c cs)
  with assms have "is_space c" by simp
  then have "\<not> is_ident_char c" using ident_char_not_space by blast
  with Cons show ?thesis by simp
qed

lemma parse_line_assign:
  assumes "name \<noteq> []" and "\<forall>c\<in>set name. is_ident_char c"
    and "\<not> is_digit (hd name)" and "name \<notin> set reserved"
    and "\<forall>c\<in>set sp1. is_space c" and "\<forall>c\<in>set sp2. is_space c"
    and "parse_expr s = Parsed x r" and "end_of_line r"
  shows "parse_line (name @ sp1 @ CHR ''='' # sp2 @ s) = Simple (Assign name x)"
proof -
  let ?tail = "sp1 @ CHR ''='' # sp2 @ s"
  from assms(1) obtain c cs where name: "name = c # cs" by (cases name) auto
  with assms(2) have c: "is_ident_char c" by simp
  have not_eol: "\<not> end_of_line (name @ ?tail)"
    using ident_char_not_space [OF c] by (simp add: name end_of_line_def)
  have hd_tail: "\<not> is_ident_char (hd ?tail)"
    using assms(5) by (rule head_of_tail_not_ident)
  then have "takeWhile is_ident_char ?tail = []"
    by (simp add: takeWhile_eq_Nil_iff)
  with assms(2) have tw: "takeWhile is_ident_char (name @ ?tail) = name" by simp
  from hd_tail have "dropWhile is_ident_char ?tail = ?tail"
    by (simp add: dropWhile_eq_self_iff)
  with assms(2) have dw: "dropWhile is_ident_char (name @ ?tail) = ?tail" by simp
  have "\<not> is_space (CHR ''='')" by (simp add: is_space_def)
  then have "dropWhile is_space ?tail = dropWhile is_space sp1 @ CHR ''='' # sp2 @ s"
    by (rule dropWhile_append3)
  with assms(5) have ds1: "dropWhile is_space ?tail = CHR ''='' # sp2 @ s" by simp
  from parse_expr_start [OF assms(7)] obtain d where s: "s = d # tl s" "\<not> is_space d"
    by (cases s) auto
  have "dropWhile is_space (sp2 @ d # tl s) = dropWhile is_space sp2 @ d # tl s"
    using s(2) by (rule dropWhile_append3)
  with assms(6) s(1) have ds2: "dropWhile is_space (sp2 @ s) = s" by simp
  show ?thesis
    unfolding parse_line_def Let_def tw dw ds1
    using not_eol assms(1,3,4,7,8) ds2 by simp
qed

subsection \<open>get_version at the first marker line\<close>

lemma py_exec_snippet:
  assumes "l \<noteq> []" and "LF \<notin> set (butlast l)" and "CR \<notin> set l" and "NUL \<notin> set l"
  shows "py_exec (Some (coding_line @ l)) Map.empty w =
           (case parse_line (chomp l) of
              Beyond \<Rightarrow> Unmodelled
            | Bad \<Rightarrow> Raises SyntaxError w
            | Blank \<Rightarrow> Returns [''__builtins__'' \<mapsto> PyBuiltins] w
            | Simple s \<Rightarrow>
                (case run [s] [''__builtins__'' \<mapsto> PyBuiltins] w of
                   (ns, w') \<Rightarrow> Returns ns w'))"
proof -
  have clean: "CR \<notin> set (coding_line @ l)" "NUL \<notin> set (coding_line @ l)"
    using assms(3,4) by (simp_all add: coding_line_def)
  have lines: "map chomp (readlines [] (coding_line @ l)) = [''# -*- coding: utf-8 -*-'', chomp l]"
    using assms(1,2) by (rule snippet_lines)
  have "compile_lines [''# -*- coding: utf-8 -*-'', chomp l] =
          (case parse_line (chomp l) of
             Beyond \<Rightarrow> None | Bad \<Rightarrow> Some (Inl SyntaxError)
           | Blank \<Rightarrow> Some (Inr []) | Simple s \<Rightarrow> Some (Inr [s]))"
    by (simp add: parse_coding_line split: logical_line.split)
  with clean lines show ?thesis
    by (simp add: py_exec_def split: logical_line.split)
qed

lemma get_version_at_marker:
  assumes "open_rt w script_name = Some (pre @ l # rest)"
    and "\<forall>x\<in>set pre. \<not> prefix marker x"
    and "prefix marker l"
    and "NUL \<notin> set l"
  shows "get_version w =
           (case parse_line (chomp l) of
              Beyond \<Rightarrow> Unmodelled
            | Bad \<Rightarrow> Raises SyntaxError w
            | Blank \<Rightarrow> Raises KeyError w
            | Simple s \<Rightarrow>
                (case run [s] [''__builtins__'' \<mapsto> PyBuiltins] w of
                   (ns, w') \<Rightarrow>
                     (case ns marker of None \<Rightarrow> Raises KeyError w' | Some v \<Rightarrow> Returns v w')))"
proof -
  have "l \<in> set (pre @ l # rest)" by simp
  note shape = open_rt_line [OF assms(1) this]
  have "scan_script (pre @ l # rest) = Some (coding_line @ l)"
    using assms(2,3) by (simp add: scan_script_skip py_find_0_iff)
  with assms(1) py_exec_snippet [OF shape assms(4), of w] show ?thesis
    by (simp add: get_version_def marker_def split: logical_line.split prod.split)
qed

lemma get_version_literal:
  assumes "open_rt w script_name = Some (pre @ l # rest)"
    and "\<forall>x\<in>set pre. \<not> prefix marker x"
    and "prefix marker l"
    and "NUL \<notin> set l"
    and "parse_line (chomp l) = Simple (Assign n (Literal v))"
  shows "get_version w = (if n = marker then Returns v w else Raises KeyError w)"
  using get_version_at_marker [OF assms(1-4)] assms(5) by (simp add: marker_def)

lemma get_version_no_marker:
  assumes "open_rt w script_name = Some ls" and "\<forall>l\<in>set ls. \<not> prefix marker l"
  shows "get_version w = Raises TypeError w"
proof -
  from assms(2) have "scan_script (ls @ []) = scan_script []" by (rule scan_script_skip)
  with assms(1) show ?thesis by (simp add: get_version_def py_exec_def)
qed

lemma chomp_keeps_prefix: "prefix m (chomp l) \<Longrightarrow> prefix m l"
  using chomp_cases [of l] by (metis prefix_prefix)

lemma chomp_NUL:
  assumes "NUL \<notin> set (chomp l)"
  shows "NUL \<notin> set l"
proof (cases "l \<noteq> [] \<and> last l = LF")
  case True
  then have "butlast l @ [LF] = l" by (metis append_butlast_last_id)
  then have "set l = set (butlast l) \<union> {LF}" by (metis set_append list.set(1) list.set(2))
  with True assms show ?thesis by (simp add: chomp_def)
next
  case False
  with assms show ?thesis by (auto simp: chomp_def)
qed

lemma NUL_not_ident: "\<not> is_ident_char NUL"
  by (simp add: is_ident_char_def)

lemma NUL_not_space: "\<not> is_space NUL"
  by (simp add: is_space_def)

lemma marker_ident: "\<forall>c\<in>set marker. is_ident_char c"
  by (simp add: marker_def is_ident_char_def)

lemma marker_name:
  assumes "\<forall>c\<in>set ext. is_ident_char c"
  shows "marker @ ext \<noteq> []" and "\<forall>c\<in>set (marker @ ext). is_ident_char c"
    and "\<not> is_digit (hd (marker @ ext))" and "marker @ ext \<notin> set reserved"
proof -
  show "marker @ ext \<noteq> []" by (simp add: marker_def)
  show "\<forall>c\<in>set (marker @ ext). is_ident_char c" using assms marker_ident by auto
  show "\<not> is_digit (hd (marker @ ext))" by (simp add: marker_def is_digit_def)
  show "marker @ ext \<notin> set reserved" by (simp add: marker_def reserved_def)
qed

lemma get_version_assignment:
  assumes "open_rt w script_name = Some (pre @ l # rest)"
    and "\<forall>x\<in>set pre. \<not> prefix marker x"
    and "chomp l = marker @ ext @ sp1 @ CHR ''='' # sp2 @ s"
    and "\<forall>c\<in>set ext. is_ident_char c"
    and "\<forall>c\<in>set sp1. is_space c" and "\<forall>c\<in>set sp2. is_space c"
    and "parse_expr s = Parsed (Literal v) r" and "end_of_line r"
    and "NUL \<notin> set s"
  shows "get_version w = (if ext = [] then Returns v w else Raises KeyError w)"
proof -
  from assms(3) have "prefix marker (chomp l)" by simp
  then have hit: "prefix marker l" by (rule chomp_keeps_prefix)
  have "NUL \<notin> set (chomp l)"
    using assms(4,5,6,9) marker_ident NUL_not_ident NUL_not_space
    unfolding assms(3) by auto
  then have clean: "NUL \<notin> set l" by (rule chomp_NUL)
  have "parse_line ((marker @ ext) @ sp1 @ CHR ''='' # sp2 @ s)
          = Simple (Assign (marker @ ext) (Literal v))"
    using marker_name [OF assms(4)] assms(5-8) by (rule parse_line_assign)
  with assms(3) have "parse_line (chomp l) = Simple (Assign (marker @ ext) (Literal v))"
    by simp
  from get_version_literal [OF assms(1,2) hit clean this] show ?thesis by simp
qed

subsection \<open>More on literals\<close>

lemma end_of_line_comment:
  assumes "\<forall>c\<in>set sp. is_space c" and "cmt = [] \<or> hd cmt = CHR ''#''"
  shows "end_of_line (sp @ cmt)"
proof (cases cmt)
  case Nil
  with assms(1) show ?thesis by (simp add: end_of_line_spaces)
next
  case (Cons c cs)
  with assms(2) have c: "c = CHR ''#''" by simp
  then have "\<not> is_space c" by (simp add: is_space_def)
  then have "dropWhile is_space (sp @ c # cs) = dropWhile is_space sp @ c # cs"
    by (rule dropWhile_append3)
  with assms(1) have rest: "dropWhile is_space (sp @ c # cs) = c # cs" by simp
  show ?thesis unfolding end_of_line_def Cons rest using c by simp
qed

subsection \<open>What the caller sees\<close>

lemma get_version_NUL:
  assumes "open_rt w script_name = Some (pre @ l # rest)"
    and "\<forall>x\<in>set pre. \<not> prefix marker x"
    and "prefix marker l"
    and "NUL \<in> set l"
  shows "get_version w = Unmodelled"
proof -
  have "scan_script (pre @ l # rest) = Some (coding_line @ l)"
    using assms(2,3) by (simp add: scan_script_skip py_find_0_iff)
  moreover have "py_exec (Some (coding_line @ l)) Map.empty w = Unmodelled"
    using assms(4) by (simp add: py_exec_def)
  ultimately show ?thesis using assms(1) by (simp add: get_version_def)
qed

lemma answer_at_marker:
  assumes "open_rt w script_name = Some (pre @ l # rest)"
    and "\<forall>x\<in>set pre. \<not> prefix marker x"
    and "prefix marker l"
  shows "answer (get_version w) = answer_of_line l"
proof (cases "NUL \<in> set l")
  case True
  with get_version_NUL [OF assms] show ?thesis by (simp add: answer_of_line_def)
next
  case False
  from get_version_at_marker [OF assms False] False show ?thesis
    by (simp add: answer_of_line_def marker_def
             split: logical_line.split stmt.split expr.split)
qed

lemma answer_no_marker:
  assumes "open_rt w script_name = Some ls" and "\<forall>l\<in>set ls. \<not> prefix marker l"
  shows "answer (get_version w) = Some (Inl TypeError)"
  using get_version_no_marker [OF assms] by simp

lemma answer_by_filter:
  assumes "open_rt w script_name = Some ls"
  shows "answer (get_version w) =
           (case filter (\<lambda>l. py_find l marker = 0) ls of
              [] \<Rightarrow> Some (Inl TypeError)
            | l # _ \<Rightarrow> answer_of_line l)"
proof (cases "filter (\<lambda>l. py_find l marker = 0) ls")
  case Nil
  then have "\<forall>l\<in>set ls. \<not> prefix marker l"
    by (simp add: filter_empty_conv py_find_0_iff)
  with answer_no_marker [OF assms] Nil show ?thesis by simp
next
  case (Cons l fs)
  then obtain pre rest where ls: "ls = pre @ l # rest"
    and pre: "\<forall>x\<in>set pre. py_find x marker \<noteq> 0" and l: "py_find l marker = 0"
    by (auto simp: filter_eq_Cons_iff)
  from pre have "\<forall>x\<in>set pre. \<not> prefix marker x" by (simp add: py_find_0_iff)
  moreover from l have "prefix marker l" by (simp add: py_find_0_iff)
  ultimately have "answer (get_version w) = answer_of_line l"
    using assms ls answer_at_marker by blast
  with Cons show ?thesis by simp
qed

lemma find_first:
  "List.find P ls = Some l \<Longrightarrow> \<exists>pre rest. ls = pre @ l # rest \<and> P l \<and> (\<forall>x\<in>set pre. \<not> P x)"
proof (induction ls)
  case Nil
  then show ?case by simp
next
  case (Cons a ls)
  show ?case
  proof (cases "P a")
    case True
    with Cons.prems have "a = l" by simp
    with True show ?thesis by (intro exI [of _ "[]"] exI [of _ ls]) simp
  next
    case False
    with Cons.prems have "List.find P ls = Some l" by simp
    from Cons.IH [OF this] obtain pre rest
      where found: "ls = pre @ l # rest" "P l" "\<forall>x\<in>set pre. \<not> P x" by blast
    with False show ?thesis by (intro exI [of _ "a # pre"] exI [of _ rest]) simp
  qed
qed

lemma get_version_via_exec:
  assumes "open_rt w script_name = Some (pre @ l # rest)"
    and "\<forall>x\<in>set pre. \<not> prefix marker x"
    and "prefix marker l"
  shows "get_version w =
           (case py_exec (Some (coding_line @ l)) Map.empty w of
              Returns ns w' \<Rightarrow>
                (case ns marker of None \<Rightarrow> Raises KeyError w' | Some v \<Rightarrow> Returns v w')
            | Raises e w' \<Rightarrow> Raises e w'
            | Unmodelled \<Rightarrow> Unmodelled)"
proof -
  have "scan_script (pre @ l # rest) = Some (coding_line @ l)"
    using assms(2,3) by (simp add: scan_script_skip py_find_0_iff)
  with assms(1) show ?thesis by (simp add: get_version_def)
qed

subsection \<open>Evaluating examples\<close>

lemmas run_defs = get_version_def open_rt_def script_only_def script_name_def marker_def
  coding_line_def py_find_def py_exec_def chomp_def parse_line_def end_of_line_def
  parse_expr_def parse_atom_def parse_number_def parse_paren_def parse_string_def
  parse_print_def is_space_def is_digit_def is_ident_char_def reserved_def
  int_of_digits_def digit_value_def

lemmas float_defs = double_of_ratio_def scaled_def round_half_even_def bit_length.simps

section \<open>The claims\<close>

text \<open>
  C1. When the first line of the script is the text \<^verbatim>\<open>__version__ = "v"\<close>, with or
  without a line ending, \<open>get_version\<close> returns exactly the string \<open>v\<close>, for every
  \<open>v\<close> that the literal spells out character by character: no double quote, no
  backslash, no NUL in it. In particular \<^verbatim>\<open>__version__ = "1.2.3"\<close> gives \<^verbatim>\<open>1.2.3\<close>.
\<close>

theorem version_on_first_line:
  assumes "open_rt w script_name = Some (l # rest)"
    and "chomp l = ''__version__ = '' @ [DQUOTE] @ v @ [DQUOTE]"
    and "DQUOTE \<notin> set v" and "BACKSLASH \<notin> set v" and "NUL \<notin> set v"
  shows "get_version w = Returns (PyStr v) w"
proof -
  have lines: "open_rt w script_name = Some ([] @ l # rest)" using assms(1) by simp
  have shape: "chomp l = marker @ [] @ '' '' @ CHR ''='' # '' '' @ (DQUOTE # v @ DQUOTE # [])"
    using assms(2) by (simp add: marker_def)
  have expr: "parse_expr (DQUOTE # v @ DQUOTE # []) = Parsed (Literal (PyStr v)) []"
    using assms(3,4) by (simp add: parse_expr_string)
  have "get_version w = (if ([]::string) = [] then Returns (PyStr v) w else Raises KeyError w)"
  proof (rule get_version_assignment [OF lines _ shape _ _ _ expr])
    show "end_of_line []" by (simp add: end_of_line_def)
    show "NUL \<notin> set (DQUOTE # v @ DQUOTE # [])" using assms(5) by simp
  qed (simp_all add: is_space_def)
  then show ?thesis by simp
qed

theorem version_on_first_line_witness:
  "open_rt (script_only (''__version__ = '' @ [DQUOTE] @ ''1.2.3'' @ [DQUOTE, LF] @ ''import sys'' @ [LF])) script_name
     = Some [''__version__ = '' @ [DQUOTE] @ ''1.2.3'' @ [DQUOTE, LF], ''import sys'' @ [LF]]
   \<and> get_version (script_only (''__version__ = '' @ [DQUOTE] @ ''1.2.3'' @ [DQUOTE, LF] @ ''import sys'' @ [LF]))
     = Returns (PyStr ''1.2.3'')
         (script_only (''__version__ = '' @ [DQUOTE] @ ''1.2.3'' @ [DQUOTE, LF] @ ''import sys'' @ [LF]))"
proof -
  let ?w = "script_only (''__version__ = '' @ [DQUOTE] @ ''1.2.3'' @ [DQUOTE, LF] @ ''import sys'' @ [LF])"
  let ?l = "''__version__ = '' @ [DQUOTE] @ ''1.2.3'' @ [DQUOTE, LF]"
  have lines: "open_rt ?w script_name = Some (?l # [''import sys'' @ [LF]])"
    by (simp add: open_rt_def script_only_def)
  have shape: "chomp ?l = ''__version__ = '' @ [DQUOTE] @ ''1.2.3'' @ [DQUOTE]"
    by (simp add: chomp_def)
  have "get_version ?w = Returns (PyStr ''1.2.3'') ?w"
    by (rule version_on_first_line [OF lines shape]) simp_all
  with lines show ?thesis by simp
qed

text \<open>
  C4. When no line of the script starts with the marker, \<open>get_version\<close> fails: no value
  is returned, \<^verbatim>\<open>version_str\<close> is still \<^verbatim>\<open>None\<close> when it reaches \<^verbatim>\<open>exec\<close>, and
  \<^verbatim>\<open>exec\<close> raises \<^verbatim>\<open>TypeError\<close>.
\<close>

theorem no_marker_fails:
  assumes "open_rt w script_name = Some ls" and "\<forall>l\<in>set ls. \<not> prefix marker l"
  shows "get_version w = Raises TypeError w"
  using assms by (rule get_version_no_marker)

theorem no_marker_fails_witness:
  "get_version (script_only (''#!/usr/bin/env python3'' @ [LF] @ ''version = 3'' @ [LF]))
     = Raises TypeError (script_only (''#!/usr/bin/env python3'' @ [LF] @ ''version = 3'' @ [LF]))"
proof -
  let ?w = "script_only (''#!/usr/bin/env python3'' @ [LF] @ ''version = 3'' @ [LF])"
  have lines: "open_rt ?w script_name = Some [''#!/usr/bin/env python3'' @ [LF], ''version = 3'' @ [LF]]"
    by (simp add: open_rt_def script_only_def)
  show ?thesis by (rule no_marker_fails [OF lines]) (simp add: marker_def)
qed

text \<open>
  C5. When the script cannot be opened, \<open>get_version\<close> fails with the \<^verbatim>\<open>OSError\<close> of
  \<^verbatim>\<open>open\<close>; nothing is returned in its place. The function takes no path: the file
  is always \<^verbatim>\<open>thermod-monitor-dbstats\<close>.
\<close>

theorem missing_script_fails:
  assumes "files w script_name = None"
  shows "get_version w = Raises OSError w"
  using assms by (simp add: get_version_def open_rt_def)

theorem missing_script_fails_witness:
  "get_version \<lparr>files = Map.empty, stdout = []\<rparr> = Raises OSError \<lparr>files = Map.empty, stdout = []\<rparr>"
  by (rule missing_script_fails) simp

text \<open>
  C2. When several lines start with the marker and give it different values, the value
  of the first of them is returned: the text given to \<^verbatim>\<open>exec\<close> is the encoding comment
  and that line, whatever stands between the two lines and after the second, so a later
  line is never looked at and its value is not the answer.
\<close>

theorem first_marker_decides:
  assumes "open_rt w script_name = Some (pre @ l1 # mid @ l2 # rest)"
    and "\<forall>x\<in>set pre. \<not> prefix marker x"
    and "chomp l1 = ''__version__ = '' @ [DQUOTE] @ v1 @ [DQUOTE]"
    and "chomp l2 = ''__version__ = '' @ [DQUOTE] @ v2 @ [DQUOTE]"
    and "v1 \<noteq> v2"
    and "DQUOTE \<notin> set v1" and "BACKSLASH \<notin> set v1" and "NUL \<notin> set v1"
  shows "scan_script (pre @ l1 # mid @ l2 # rest) = Some (coding_line @ l1)
       \<and> get_version w = Returns (PyStr v1) w
       \<and> get_version w \<noteq> Returns (PyStr v2) w"
proof -
  from assms(3) have "prefix marker (chomp l1)" by (simp add: marker_def)
  then have hit: "prefix marker l1" by (rule chomp_keeps_prefix)
  have scan: "scan_script (pre @ l1 # mid @ l2 # rest) = Some (coding_line @ l1)"
    using assms(2) hit by (simp add: scan_script_skip py_find_0_iff)
  have shape: "chomp l1 = marker @ [] @ '' '' @ CHR ''='' # '' '' @ (DQUOTE # v1 @ DQUOTE # [])"
    using assms(3) by (simp add: marker_def)
  have expr: "parse_expr (DQUOTE # v1 @ DQUOTE # []) = Parsed (Literal (PyStr v1)) []"
    using assms(6,7) by (simp add: parse_expr_string)
  have "get_version w = (if ([]::string) = [] then Returns (PyStr v1) w else Raises KeyError w)"
  proof (rule get_version_assignment [OF assms(1,2) shape _ _ _ expr])
    show "end_of_line []" by (simp add: end_of_line_def)
    show "NUL \<notin> set (DQUOTE # v1 @ DQUOTE # [])" using assms(8) by simp
  qed (simp_all add: is_space_def)
  then have first: "get_version w = Returns (PyStr v1) w" by simp
  with assms(5) have "get_version w \<noteq> Returns (PyStr v2) w" by simp
  with scan first show ?thesis by simp
qed

theorem first_marker_decides_witness:
  "get_version (script_only (''__version__ = '' @ [DQUOTE] @ ''1.0'' @ [DQUOTE, LF]
                              @ ''import sys'' @ [LF]
                              @ ''__version__ = '' @ [DQUOTE] @ ''2.0'' @ [DQUOTE, LF]))
     = Returns (PyStr ''1.0'')
         (script_only (''__version__ = '' @ [DQUOTE] @ ''1.0'' @ [DQUOTE, LF]
                        @ ''import sys'' @ [LF]
                        @ ''__version__ = '' @ [DQUOTE] @ ''2.0'' @ [DQUOTE, LF]))
   \<and> scan_script [''__version__ = '' @ [DQUOTE] @ ''1.0'' @ [DQUOTE, LF], ''import sys'' @ [LF],
                  ''__version__ = '' @ [DQUOTE] @ ''2.0'' @ [DQUOTE, LF]]
     = Some (coding_line @ ''__version__ = '' @ [DQUOTE] @ ''1.0'' @ [DQUOTE, LF])"
proof -
  let ?l1 = "''__version__ = '' @ [DQUOTE] @ ''1.0'' @ [DQUOTE, LF]"
  let ?l2 = "''__version__ = '' @ [DQUOTE] @ ''2.0'' @ [DQUOTE, LF]"
  let ?w = "script_only (''__version__ = '' @ [DQUOTE] @ ''1.0'' @ [DQUOTE, LF]
                              @ ''import sys'' @ [LF]
                              @ ''__version__ = '' @ [DQUOTE] @ ''2.0'' @ [DQUOTE, LF])"
  have lines: "open_rt ?w script_name = Some ([] @ ?l1 # [''import sys'' @ [LF]] @ ?l2 # [])"
    by (simp add: open_rt_def script_only_def)
  have one: "chomp ?l1 = ''__version__ = '' @ [DQUOTE] @ ''1.0'' @ [DQUOTE]"
    by (simp add: chomp_def)
  have two: "chomp ?l2 = ''__version__ = '' @ [DQUOTE] @ ''2.0'' @ [DQUOTE]"
    by (simp add: chomp_def)
  have "scan_script ([] @ ?l1 # [''import sys'' @ [LF]] @ ?l2 # []) = Some (coding_line @ ?l1)
      \<and> get_version ?w = Returns (PyStr ''1.0'') ?w
      \<and> get_version ?w \<noteq> Returns (PyStr ''2.0'') ?w"
    by (rule first_marker_decides [OF lines _ one two]) simp_all
  then show ?thesis by simp
qed

text \<open>
  C7. Only lines on which \<^verbatim>\<open>find\<close> gives index 0, that is lines that start with the
  marker (\<open>py_find_0_iff\<close>), count: two scripts with the same such lines in the same
  order hand the same text to \<^verbatim>\<open>exec\<close> and get the same answer. Lines that hold the
  marker further right, after blanks or inside a comment, can be added or removed at
  will, and a script with only such lines fails as one without the marker does.
\<close>

theorem only_column_zero_matches:
  assumes "open_rt w script_name = Some ls"
    and "open_rt w' script_name = Some ls'"
    and "filter (\<lambda>l. py_find l marker = 0) ls = filter (\<lambda>l. py_find l marker = 0) ls'"
  shows "scan_script ls = scan_script ls' \<and> answer (get_version w) = answer (get_version w')"
  using answer_by_filter [OF assms(1)] answer_by_filter [OF assms(2)]
    scan_script_by_filter [of ls] scan_script_by_filter [of ls'] assms(3)
  by simp

theorem only_column_zero_matches_witness:
  "answer (get_version (script_only (''  __version__ = '' @ [DQUOTE] @ ''9'' @ [DQUOTE, LF]
                                      @ ''# __version__ = 7'' @ [LF]
                                      @ ''__version__ = '' @ [DQUOTE] @ ''1.0'' @ [DQUOTE, LF])))
     = answer (get_version (script_only (''__version__ = '' @ [DQUOTE] @ ''1.0'' @ [DQUOTE, LF])))
   \<and> answer (get_version (script_only (''__version__ = '' @ [DQUOTE] @ ''1.0'' @ [DQUOTE, LF])))
     = Some (Inr (PyStr ''1.0''))
   \<and> answer (get_version (script_only (''  __version__ = '' @ [DQUOTE] @ ''9'' @ [DQUOTE, LF])))
     = Some (Inl TypeError)
   \<and> py_find (''  __version__ = '' @ [DQUOTE] @ ''9'' @ [DQUOTE, LF]) marker = 2"
proof -
  let ?i = "''  __version__ = '' @ [DQUOTE] @ ''9'' @ [DQUOTE, LF]"
  let ?c = "''# __version__ = 7'' @ [LF]"
  let ?l = "''__version__ = '' @ [DQUOTE] @ ''1.0'' @ [DQUOTE, LF]"
  have three: "open_rt (script_only (?i @ ?c @ ?l)) script_name = Some [?i, ?c, ?l]"
    by (simp add: open_rt_def script_only_def)
  have one: "open_rt (script_only ?l) script_name = Some [?l]"
    by (simp add: open_rt_def script_only_def)
  have "scan_script [?i, ?c, ?l] = scan_script [?l]
      \<and> answer (get_version (script_only (?i @ ?c @ ?l))) = answer (get_version (script_only ?l))"
    by (rule only_column_zero_matches [OF three one]) (simp add: py_find_def marker_def)
  moreover have "answer (get_version (script_only ?l)) = Some (Inr (PyStr ''1.0''))"
    by (simp add: run_defs)
  moreover have "answer (get_version (script_only ?i)) = Some (Inl TypeError)"
    by (simp add: run_defs)
  moreover have "py_find ?i marker = 2"
    by (simp add: py_find_def marker_def)
  ultimately show ?thesis by simp
qed

text \<open>
  C3. Round trip. Wherever the first marker line stands, whichever quotes it uses and
  however the \<^verbatim>\<open>=\<close> is spaced, with or without a trailing comment, the string that
  \<open>get_version\<close> returns is the text between the quotes, character for character:
  blanks inside the quotes stay, nothing is trimmed or normalised. This holds for every
  text without the quote character, backslash and NUL.
\<close>

theorem version_round_trip:
  assumes "open_rt w script_name = Some (pre @ l # rest)"
    and "\<forall>x\<in>set pre. \<not> prefix marker x"
    and "chomp l = ''__version__'' @ sp1 @ ''='' @ sp2 @ [q] @ v @ [q] @ sp3 @ cmt"
    and "q = DQUOTE \<or> q = SQUOTE"
    and "\<forall>c\<in>set (sp1 @ sp2 @ sp3). is_space c"
    and "cmt = [] \<or> hd cmt = CHR ''#''" and "NUL \<notin> set cmt"
    and "q \<notin> set v" and "BACKSLASH \<notin> set v" and "NUL \<notin> set v"
  shows "get_version w = Returns (PyStr v) w"
proof -
  have shape: "chomp l = marker @ [] @ sp1 @ CHR ''='' # sp2 @ (q # v @ q # sp3 @ cmt)"
    using assms(3) by (simp add: marker_def)
  have expr: "parse_expr (q # v @ q # sp3 @ cmt) = Parsed (Literal (PyStr v)) (sp3 @ cmt)"
    using assms(4,8,9) by (rule parse_expr_string)
  have eol: "end_of_line (sp3 @ cmt)"
    using assms(5,6) by (simp add: end_of_line_comment)
  have "NUL \<notin> set sp3" using assms(5) NUL_not_space by auto
  with assms(4,7,10) have clean: "NUL \<notin> set (q # v @ q # sp3 @ cmt)" by auto
  have "get_version w = (if ([]::string) = [] then Returns (PyStr v) w else Raises KeyError w)"
    using assms(1,2) shape _ _ _ expr eol clean
    by (rule get_version_assignment) (use assms(5) in simp_all)
  then show ?thesis by simp
qed

theorem version_round_trip_witness:
  "get_version (script_only (''#!/usr/bin/env python3'' @ [CR, LF]
                              @ ''__version__='' @ [TAB, SQUOTE] @ '' 1.2.0-Beta '' @ [SQUOTE]
                              @ ''  # the version'' @ [CR, LF] @ ''import sys'' @ [CR, LF]))
     = Returns (PyStr '' 1.2.0-Beta '')
         (script_only (''#!/usr/bin/env python3'' @ [CR, LF]
                        @ ''__version__='' @ [TAB, SQUOTE] @ '' 1.2.0-Beta '' @ [SQUOTE]
                        @ ''  # the version'' @ [CR, LF] @ ''import sys'' @ [CR, LF]))"
proof -
  let ?l = "''__version__='' @ [TAB, SQUOTE] @ '' 1.2.0-Beta '' @ [SQUOTE] @ ''  # the version'' @ [LF]"
  let ?w = "script_only (''#!/usr/bin/env python3'' @ [CR, LF]
                              @ ''__version__='' @ [TAB, SQUOTE] @ '' 1.2.0-Beta '' @ [SQUOTE]
                              @ ''  # the version'' @ [CR, LF] @ ''import sys'' @ [CR, LF])"
  have lines: "open_rt ?w script_name
                 = Some ([''#!/usr/bin/env python3'' @ [LF]] @ ?l # [''import sys'' @ [LF]])"
    by (simp add: open_rt_def script_only_def)
  have shape: "chomp ?l = ''__version__'' @ [] @ ''='' @ [TAB] @ [SQUOTE] @ '' 1.2.0-Beta ''
                            @ [SQUOTE] @ ''  '' @ ''# the version''"
    by (simp add: chomp_def)
  show ?thesis
    by (rule version_round_trip [OF lines _ shape]) (simp_all add: marker_def is_space_def)
qed

text \<open>
  C6. The marker line need not be the first line: when only lines that do not start with
  the marker stand above it, \<open>get_version\<close> finds it all the same and returns its
  value.
\<close>

theorem marker_below_first_line:
  assumes "open_rt w script_name = Some (pre @ l # rest)"
    and "pre \<noteq> []"
    and "\<forall>x\<in>set pre. \<not> prefix marker x"
    and "chomp l = ''__version__ = '' @ [DQUOTE] @ v @ [DQUOTE]"
    and "DQUOTE \<notin> set v" and "BACKSLASH \<notin> set v" and "NUL \<notin> set v"
  shows "get_version w = Returns (PyStr v) w"
proof -
  have shape: "chomp l = marker @ [] @ '' '' @ CHR ''='' # '' '' @ (DQUOTE # v @ DQUOTE # [])"
    using assms(4) by (simp add: marker_def)
  have expr: "parse_expr (DQUOTE # v @ DQUOTE # []) = Parsed (Literal (PyStr v)) []"
    using assms(5,6) by (simp add: parse_expr_string)
  have "get_version w = (if ([]::string) = [] then Returns (PyStr v) w else Raises KeyError w)"
  proof (rule get_version_assignment [OF assms(1,3) shape _ _ _ expr])
    show "end_of_line []" by (simp add: end_of_line_def)
    show "NUL \<notin> set (DQUOTE # v @ DQUOTE # [])" using assms(7) by simp
  qed (simp_all add: is_space_def)
  then show ?thesis by simp
qed

theorem marker_below_first_line_witness:
  "get_version (script_only (''#!/usr/bin/env python3'' @ [LF] @ [LF]
                              @ ''import __version__'' @ [LF]
                              @ ''__version__ = '' @ [DQUOTE] @ ''1.2.0'' @ [DQUOTE]))
     = Returns (PyStr ''1.2.0'')
         (script_only (''#!/usr/bin/env python3'' @ [LF] @ [LF]
                        @ ''import __version__'' @ [LF]
                        @ ''__version__ = '' @ [DQUOTE] @ ''1.2.0'' @ [DQUOTE]))"
proof -
  let ?l = "''__version__ = '' @ [DQUOTE] @ ''1.2.0'' @ [DQUOTE]"
  let ?pre = "[''#!/usr/bin/env python3'' @ [LF], [LF], ''import __version__'' @ [LF]]"
  let ?w = "script_only (''#!/usr/bin/env python3'' @ [LF] @ [LF]
                              @ ''import __version__'' @ [LF]
                              @ ''__version__ = '' @ [DQUOTE] @ ''1.2.0'' @ [DQUOTE])"
  have lines: "open_rt ?w script_name = Some (?pre @ ?l # [])"
    by (simp add: open_rt_def script_only_def)
  have shape: "chomp ?l = ''__version__ = '' @ [DQUOTE] @ ''1.2.0'' @ [DQUOTE]"
    by (simp add: chomp_def)
  show ?thesis
    by (rule marker_below_first_line [OF lines _ _ shape]) (simp_all add: marker_def)
qed

text \<open>
  C9. A line that starts with a longer name, such as \<^verbatim>\<open>__version__info = "x"\<close>, matches
  the scan too. Executing it binds the longer name only, so the lookup of
  \<^verbatim>\<open>'__version__'\<close> raises \<^verbatim>\<open>KeyError\<close>, whatever follows in the script, a genuine
  marker line included.
\<close>

theorem longer_name_raises_key_error:
  assumes "open_rt w script_name = Some (pre @ l # rest)"
    and "\<forall>x\<in>set pre. \<not> prefix marker x"
    and "chomp l = ''__version__'' @ ext @ '' = '' @ [DQUOTE] @ v @ [DQUOTE]"
    and "ext \<noteq> []" and "\<forall>c\<in>set ext. is_ident_char c"
    and "DQUOTE \<notin> set v" and "BACKSLASH \<notin> set v" and "NUL \<notin> set v"
  shows "get_version w = Raises KeyError w"
proof -
  have shape: "chomp l = marker @ ext @ '' '' @ CHR ''='' # '' '' @ (DQUOTE # v @ DQUOTE # [])"
    using assms(3) by (simp add: marker_def)
  have expr: "parse_expr (DQUOTE # v @ DQUOTE # []) = Parsed (Literal (PyStr v)) []"
    using assms(6,7) by (simp add: parse_expr_string)
  have "get_version w = (if ext = [] then Returns (PyStr v) w else Raises KeyError w)"
  proof (rule get_version_assignment [OF assms(1,2) shape assms(5) _ _ expr])
    show "end_of_line []" by (simp add: end_of_line_def)
    show "NUL \<notin> set (DQUOTE # v @ DQUOTE # [])" using assms(8) by simp
  qed (simp_all add: is_space_def)
  with assms(4) show ?thesis by simp
qed

theorem longer_name_raises_key_error_witness:
  "get_version (script_only (''__version__info = '' @ [DQUOTE] @ ''x'' @ [DQUOTE, LF]
                              @ ''__version__ = '' @ [DQUOTE] @ ''1.2.0'' @ [DQUOTE, LF]))
     = Raises KeyError
         (script_only (''__version__info = '' @ [DQUOTE] @ ''x'' @ [DQUOTE, LF]
                        @ ''__version__ = '' @ [DQUOTE] @ ''1.2.0'' @ [DQUOTE, LF]))"
proof -
  let ?l = "''__version__info = '' @ [DQUOTE] @ ''x'' @ [DQUOTE, LF]"
  let ?g = "''__version__ = '' @ [DQUOTE] @ ''1.2.0'' @ [DQUOTE, LF]"
  let ?w = "script_only (''__version__info = '' @ [DQUOTE] @ ''x'' @ [DQUOTE, LF]
                              @ ''__version__ = '' @ [DQUOTE] @ ''1.2.0'' @ [DQUOTE, LF])"
  have lines: "open_rt ?w script_name = Some ([] @ ?l # [?g])"
    by (simp add: open_rt_def script_only_def)
  have shape: "chomp ?l = ''__version__'' @ ''info'' @ '' = '' @ [DQUOTE] @ ''x'' @ [DQUOTE]"
    by (simp add: chomp_def)
  show ?thesis
    by (rule longer_name_raises_key_error [OF lines _ shape]) (simp_all add: is_ident_char_def)
qed

text \<open>
  C10. The value is not checked to be a string: whatever value the first marker line
  leaves under \<^verbatim>\<open>'__version__'\<close> in the namespace is what \<open>get_version\<close> returns, in
  the world that executing the line leaves. So a marker line that gives the marker a
  float, a tuple, an integer or \<^verbatim>\<open>None\<close> makes \<open>get_version\<close> return that float, tuple,
  integer or \<^verbatim>\<open>None\<close>, and not fail.
\<close>

theorem unchecked_value_is_returned:
  assumes "open_rt w script_name = Some (pre @ l # rest)"
    and "\<forall>x\<in>set pre. \<not> prefix marker x"
    and "prefix marker l"
    and "py_exec (Some (coding_line @ l)) Map.empty w = Returns ns w'"
    and "ns marker = Some v"
  shows "get_version w = Returns v w'"
  using get_version_via_exec [OF assms(1-3)] assms(4,5) by simp

theorem unchecked_value_is_returned_witness:
  "get_version (script_only (''# release'' @ [LF] @ ''__version__ = 1.2'' @ [LF]))
     = Returns (PyFloat 5404319552844595 (- 52))
         (script_only (''# release'' @ [LF] @ ''__version__ = 1.2'' @ [LF]))
   \<and> get_version (script_only (''__version__ = (1, 2, 0)'' @ [LF]))
     = Returns (PyTuple [PyInt 1, PyInt 2, PyInt 0])
         (script_only (''__version__ = (1, 2, 0)'' @ [LF]))
   \<and> get_version (script_only (''__version__ = 12'' @ [LF]))
     = Returns (PyInt 12) (script_only (''__version__ = 12'' @ [LF]))
   \<and> get_version (script_only (''__version__ = None'' @ [LF]))
     = Returns PyNone (script_only (''__version__ = None'' @ [LF]))"
proof -
  let ?f = "script_only (''# release'' @ [LF] @ ''__version__ = 1.2'' @ [LF])"
  let ?t = "script_only (''__version__ = (1, 2, 0)'' @ [LF])"
  let ?i = "script_only (''__version__ = 12'' @ [LF])"
  let ?n = "script_only (''__version__ = None'' @ [LF])"
  have f_lines: "open_rt ?f script_name
                   = Some ([''# release'' @ [LF]] @ (''__version__ = 1.2'' @ [LF]) # [])"
    by (simp add: open_rt_def script_only_def)
  have f_exec: "py_exec (Some (coding_line @ ''__version__ = 1.2'' @ [LF])) Map.empty ?f
                  = Returns [''__builtins__'' \<mapsto> PyBuiltins,
                             ''__version__'' \<mapsto> PyFloat 5404319552844595 (- 52)] ?f"
    by (simp add: run_defs float_defs)
  have f: "get_version ?f = Returns (PyFloat 5404319552844595 (- 52)) ?f"
    by (rule unchecked_value_is_returned [OF f_lines _ _ f_exec]) (simp_all add: marker_def)
  have t_lines: "open_rt ?t script_name = Some ([] @ (''__version__ = (1, 2, 0)'' @ [LF]) # [])"
    by (simp add: open_rt_def script_only_def)
  have t_exec: "py_exec (Some (coding_line @ ''__version__ = (1, 2, 0)'' @ [LF])) Map.empty ?t
                  = Returns [''__builtins__'' \<mapsto> PyBuiltins,
                             ''__version__'' \<mapsto> PyTuple [PyInt 1, PyInt 2, PyInt 0]] ?t"
    by (simp add: run_defs)
  have t: "get_version ?t = Returns (PyTuple [PyInt 1, PyInt 2, PyInt 0]) ?t"
    by (rule unchecked_value_is_returned [OF t_lines _ _ t_exec]) (simp_all add: marker_def)
  have i_lines: "open_rt ?i script_name = Some ([] @ (''__version__ = 12'' @ [LF]) # [])"
    by (simp add: open_rt_def script_only_def)
  have i_exec: "py_exec (Some (coding_line @ ''__version__ = 12'' @ [LF])) Map.empty ?i
                  = Returns [''__builtins__'' \<mapsto> PyBuiltins, ''__version__'' \<mapsto> PyInt 12] ?i"
    by (simp add: run_defs)
  have i: "get_version ?i = Returns (PyInt 12) ?i"
    by (rule unchecked_value_is_returned [OF i_lines _ _ i_exec]) (simp_all add: marker_def)
  have n_lines: "open_rt ?n script_name = Some ([] @ (''__version__ = None'' @ [LF]) # [])"
    by (simp add: open_rt_def script_only_def)
  have n_exec: "py_exec (Some (coding_line @ ''__version__ = None'' @ [LF])) Map.empty ?n
                  = Returns [''__builtins__'' \<mapsto> PyBuiltins, ''__version__'' \<mapsto> PyNone] ?n"
    by (simp add: run_defs)
  have n: "get_version ?n = Returns PyNone ?n"
    by (rule unchecked_value_is_returned [OF n_lines _ _ n_exec]) (simp_all add: marker_def)
  from f t i n show ?thesis by simp
qed

text \<open>
  C8, as stated, fails: the marker line is executed as it stands, so a marker line that
  calls a function has that function's effects. With \<^verbatim>\<open>__version__ = print("x")\<close> the
  call writes to the standard output and returns \<^verbatim>\<open>None\<close>.
\<close>

theorem print_in_marker_line_writes:
  "get_version (script_only (''__version__ = print('' @ [DQUOTE] @ ''x'' @ [DQUOTE] @ '')''))
     = Returns PyNone
         ((script_only (''__version__ = print('' @ [DQUOTE] @ ''x'' @ [DQUOTE] @ '')''))
            \<lparr>stdout := ''x'' @ [LF]\<rparr>)
   \<and> (script_only (''__version__ = print('' @ [DQUOTE] @ ''x'' @ [DQUOTE] @ '')''))
         \<lparr>stdout := ''x'' @ [LF]\<rparr>
       \<noteq> script_only (''__version__ = print('' @ [DQUOTE] @ ''x'' @ [DQUOTE] @ '')'')"
  by (simp add: run_defs)

text \<open>
  C8, amended. Unless the first line that starts with the marker is something other than
  the assignment of a literal, \<open>get_version\<close> has no side effect and hands back nothing
  of the namespace but the literal: it raises \<^verbatim>\<open>OSError\<close>, \<^verbatim>\<open>TypeError\<close> or \<^verbatim>\<open>KeyError\<close>,
  or returns the value that this line assigns to the marker, each time in the world it
  started in. Lines after the first marker line do not matter.
\<close>

theorem literal_marker_line_leaves_world:
  assumes "\<forall>ls l. open_rt w script_name = Some ls \<and> List.find (prefix marker) ls = Some l
                  \<longrightarrow> literal_assigned l \<noteq> None"
  shows "get_version w = Raises OSError w
       \<or> get_version w = Raises TypeError w
       \<or> get_version w = Raises KeyError w
       \<or> (\<exists>ls l v. open_rt w script_name = Some ls
                   \<and> List.find (prefix marker) ls = Some l
                   \<and> literal_assigned l = Some (marker, v)
                   \<and> get_version w = Returns v w)"
proof (cases "open_rt w script_name")
  case None
  then have "get_version w = Raises OSError w" by (simp add: get_version_def)
  then show ?thesis by blast
next
  case (Some ls)
  show ?thesis
  proof (cases "List.find (prefix marker) ls")
    case None
    then have "\<forall>l\<in>set ls. \<not> prefix marker l" by (simp add: find_None_iff)
    with Some have "get_version w = Raises TypeError w" by (rule get_version_no_marker)
    then show ?thesis by blast
  next
    case found: (Some l)
    from find_first [OF this] obtain pre rest where ls: "ls = pre @ l # rest"
      and l: "prefix marker l" and pre: "\<forall>x\<in>set pre. \<not> prefix marker x" by blast
    from assms Some found obtain n v where lit: "literal_assigned l = Some (n, v)" by fastforce
    then have clean: "NUL \<notin> set l"
      by (simp add: literal_assigned_def split: if_splits)
    from lit clean have "parse_line (chomp l) = Simple (Assign n (Literal v))"
      by (simp add: literal_assigned_def
               split: logical_line.splits stmt.splits expr.splits)
    from get_version_literal [OF Some [unfolded ls] pre l clean this]
    have result: "get_version w = (if n = marker then Returns v w else Raises KeyError w)" .
    show ?thesis
    proof (cases "n = marker")
      case True
      with result lit Some found show ?thesis by auto
    next
      case False
      with result show ?thesis by simp
    qed
  qed
qed

theorem literal_marker_line_leaves_world_witness:
  "get_version (script_only (''__version__ = True'' @ [LF]
                              @ ''__version__ = print('' @ [DQUOTE] @ ''x'' @ [DQUOTE] @ '')'' @ [LF]))
     = Raises OSError (script_only (''__version__ = True'' @ [LF]
                              @ ''__version__ = print('' @ [DQUOTE] @ ''x'' @ [DQUOTE] @ '')'' @ [LF]))
   \<or> get_version (script_only (''__version__ = True'' @ [LF]
                              @ ''__version__ = print('' @ [DQUOTE] @ ''x'' @ [DQUOTE] @ '')'' @ [LF]))
     = Raises TypeError (script_only (''__version__ = True'' @ [LF]
                              @ ''__version__ = print('' @ [DQUOTE] @ ''x'' @ [DQUOTE] @ '')'' @ [LF]))
   \<or> get_version (script_only (''__version__ = True'' @ [LF]
                              @ ''__version__ = print('' @ [DQUOTE] @ ''x'' @ [DQUOTE] @ '')'' @ [LF]))
     = Raises KeyError (script_only (''__version__ = True'' @ [LF]
                              @ ''__version__ = print('' @ [DQUOTE] @ ''x'' @ [DQUOTE] @ '')'' @ [LF]))
   \<or> (\<exists>ls l v. open_rt (script_only (''__version__ = True'' @ [LF]
                              @ ''__version__ = print('' @ [DQUOTE] @ ''x'' @ [DQUOTE] @ '')'' @ [LF]))
                    script_name = Some ls
                \<and> List.find (prefix marker) ls = Some l
                \<and> literal_assigned l = Some (marker, v)
                \<and> get_version (script_only (''__version__ = True'' @ [LF]
                              @ ''__version__ = print('' @ [DQUOTE] @ ''x'' @ [DQUOTE] @ '')'' @ [LF]))
                    = Returns v (script_only (''__version__ = True'' @ [LF]
                              @ ''__version__ = print('' @ [DQUOTE] @ ''x'' @ [DQUOTE] @ '')'' @ [LF])))"
proof (rule literal_marker_line_leaves_world, intro allI impI, elim conjE)
  fix ls l
  let ?w = "script_only (''__version__ = True'' @ [LF]
                              @ ''__version__ = print('' @ [DQUOTE] @ ''x'' @ [DQUOTE] @ '')'' @ [LF])"
  assume "open_rt ?w script_name = Some ls" and found: "List.find (prefix marker) ls = Some l"
  then have "ls = [''__version__ = True'' @ [LF],
                   ''__version__ = print('' @ [DQUOTE] @ ''x'' @ [DQUOTE] @ '')'' @ [LF]]"
    by (simp add: open_rt_def script_only_def)
  with found have "l = ''__version__ = True'' @ [LF]" by (simp add: marker_def)
  then show "literal_assigned l \<noteq> None" by (simp add: literal_assigned_def run_defs)
qed

end
